theory Spec2Isabelle
  imports Complex_Main "HOL-Library.Word" "HOL-Library.Signed_Division" "HOL-Library.Log_Nat"
begin

section \<open>Constants of \<open>apm_tracker.h\<close>\<close>

text \<open>
  The header defines the capacity as an object-like macro whose body is not parenthesised:
  \<^verbatim>\<open>#define MAX_EVENTS 7 * 24 * 60 * 60\<close>.
  The preprocessor substitutes tokens, so the value of an expression that uses the macro
  depends on the operators around it.  Where the macro stands alone, or next to \<open>+\<close>,
  \<open>-\<close>, \<open><\<close>, \<open><=\<close>, \<open>>\<close> (all of lower precedence than \<open>*\<close>), it denotes
  \<open>604800\<close>: that is \<open>MAX_EVENTS\<close> below.

  Where it is the right operand of \<open>%\<close>, as in
  \<^verbatim>\<open>event_index = (event_index + 1) % MAX_EVENTS;\<close>
  the statement the compiler sees is
  \<^verbatim>\<open>event_index = (event_index + 1) % 7 * 24 * 60 * 60;\<close>
  and since \<open>%\<close> and \<open>*\<close> have the same precedence and associate to the left, this is
  \<open>(((event_index + 1) % 7) * 24) * 60 * 60\<close>.  That is \<open>rem_MAX_EVENTS\<close> below.
  C's \<open>%\<close> truncates towards zero (the sign of the result is the sign of the dividend),
  which is \<open>smod\<close> on \<open>int\<close>, not HOL's \<open>mod\<close>.
\<close>

type_synonym time_t = int

definition MAX_EVENTS :: int where
  "MAX_EVENTS = 7 * 24 * 60 * 60"

definition rem_MAX_EVENTS :: "int \<Rightarrow> int" where
  "rem_MAX_EVENTS x = (((x smod 7) * 24) * 60) * 60"

section \<open>The store: the globals of \<open>apm_tracker.c\<close>\<close>

text \<open>
  \<open>event_buffer\<close> is a pointer to an array of \<open>MAX_EVENTS\<close> records of one \<open>time_t\<close> each,
  or \<open>NULL\<close>; the array is a function from the index to the timestamp stored there, of which
  the program owns the indices \<open>0 \<le> i < MAX_EVENTS\<close>.  The array comes from \<open>malloc\<close>, so
  its initial contents are arbitrary.  \<open>event_count\<close> and \<open>event_index\<close> are C \<open>int\<close>s;
  they are modelled as mathematical integers, and every state reachable from an empty store
  keeps them between \<open>0\<close> and \<open>MAX_EVENTS\<close>, far from overflow.

  A write through \<open>NULL\<close> and an access outside the array, which C leaves undefined, are a
  \<open>fault\<close> of the model.
\<close>

record tracker =
  event_buffer :: "(int \<Rightarrow> time_t) option"
  event_count :: int
  event_index :: int

datatype fault = NullPointer | OutOfBounds

definition in_buffer :: "int \<Rightarrow> bool" where
  "in_buffer i \<longleftrightarrow> 0 \<le> i \<and> i < MAX_EVENTS"

text \<open>\<^verbatim>\<open>event_buffer[i].timestamp = t;\<close>\<close>

definition write_slot :: "tracker \<Rightarrow> int \<Rightarrow> time_t \<Rightarrow> fault + tracker" where
  "write_slot s i t =
     (case event_buffer s of
        None \<Rightarrow> Inl NullPointer
      | Some buf \<Rightarrow>
          if in_buffer i then Inr (s\<lparr>event_buffer := Some (buf(i := t))\<rparr>)
          else Inl OutOfBounds)"

text \<open>
  \<open>add_event\<close> (lines 107--119); \<open>now\<close> is the value \<open>time(NULL)\<close> returns.  Both branches
  store at \<open>event_index\<close> and advance it with \<open>% MAX_EVENTS\<close>.
\<close>

definition add_event :: "time_t \<Rightarrow> tracker \<Rightarrow> fault + tracker" where
  "add_event now s =
     (if event_count s < MAX_EVENTS then
        (case write_slot s (event_index s) now of
           Inl e \<Rightarrow> Inl e
         | Inr s1 \<Rightarrow>
             Inr (s1\<lparr>event_index := rem_MAX_EVENTS (event_index s1 + 1),
                     event_count := event_count s1 + 1\<rparr>))
      else
        (case write_slot s (event_index s) now of
           Inl e \<Rightarrow> Inl e
         | Inr s1 \<Rightarrow>
             Inr (s1\<lparr>event_index := rem_MAX_EVENTS (event_index s1 + 1)\<rparr>)))"

text \<open>
  The main loop calls \<open>add_event\<close> once per detected key or button press; \<open>add_events\<close>
  is that sequence of calls, the list holding the successive values of \<open>time(NULL)\<close>.
\<close>

fun add_events :: "time_t list \<Rightarrow> tracker \<Rightarrow> fault + tracker" where
  "add_events [] s = Inr s"
| "add_events (t # ts) s =
     (case add_event t s of Inl e \<Rightarrow> Inl e | Inr s1 \<Rightarrow> add_events ts s1)"

text \<open>
  The store as \<open>main\<close> sets it up: the buffer freshly allocated (contents \<open>m\<close>), the two
  counters at their static initial value \<open>0\<close>.
\<close>

definition fresh_store :: "(int \<Rightarrow> time_t) \<Rightarrow> tracker" where
  "fresh_store m = \<lparr>event_buffer = Some m, event_count = 0, event_index = 0\<rparr>"

section \<open>The rate: \<open>calculate_apm_with_time\<close>\<close>

text \<open>
  The parameter \<open>minutes\<close> is a C \<open>int\<close> (32 bits) and \<open>current_time\<close> a \<open>time_t\<close> (64
  bits).  In \<^verbatim>\<open>time_t cutoff = current_time - (minutes * 60);\<close> the product is computed in
  \<open>int\<close> and the difference in \<open>time_t\<close>.  An overflow of either is undefined in C; the
  compiled program computes them in two's complement, and so does the model: the product
  wraps around modulo \<open>2^32\<close> and the difference modulo \<open>2^64\<close>.  \<open>int_range\<close> and
  \<open>time_range\<close> are the values of the two types, on which nothing wraps.
\<close>

definition int_range :: "int \<Rightarrow> bool" where
  "int_range x \<longleftrightarrow> - (2 ^ 31) \<le> x \<and> x < 2 ^ 31"

definition time_range :: "int \<Rightarrow> bool" where
  "time_range x \<longleftrightarrow> - (2 ^ 63) \<le> x \<and> x < 2 ^ 63"

definition wrap_int :: "int \<Rightarrow> int" where
  "wrap_int x = (x + 2 ^ 31) mod 2 ^ 32 - 2 ^ 31"

definition wrap_time_t :: "int \<Rightarrow> time_t" where
  "wrap_time_t x = (x + 2 ^ 63) mod 2 ^ 64 - 2 ^ 63"

definition cutoff_time :: "int \<Rightarrow> time_t \<Rightarrow> time_t" where
  "cutoff_time minutes current_time = wrap_time_t (current_time - wrap_int (minutes * 60))"

text \<open>
  The C type \<open>float\<close> is IEEE 754 binary32: a significand of 24 bits, rounding to the
  nearest value, ties to the even significand.  A \<open>float\<close> is modelled by the rational
  number it denotes.  \<open>binary32 x\<close> is the \<open>float\<close> nearest to \<open>x\<close>: with \<open>e\<close> the exponent
  of \<open>x\<close> (\<open>2^e \<le> |x| < 2^(e+1)\<close>), it is \<open>|x|\<close> rounded to a multiple of \<open>2^(e-23)\<close>.  The
  values that occur here are quotients of two 32-bit integers, so they are \<open>0\<close> or lie
  between \<open>2^(-31)\<close> and \<open>2^31\<close> in magnitude: far from the overflow and the subnormal
  numbers of the format, which \<open>binary32\<close> leaves out.  The sign of a zero is not kept.
\<close>

definition round_half_even :: "rat \<Rightarrow> int" where
  "round_half_even q =
     (if q - of_int \<lfloor>q\<rfloor> < 1 / 2 then \<lfloor>q\<rfloor>
      else if 1 / 2 < q - of_int \<lfloor>q\<rfloor> then \<lfloor>q\<rfloor> + 1
      else if even \<lfloor>q\<rfloor> then \<lfloor>q\<rfloor> else \<lfloor>q\<rfloor> + 1)"

definition pow2 :: "int \<Rightarrow> rat" where
  "pow2 e = (if 0 \<le> e then 2 ^ nat e else 1 / 2 ^ nat (- e))"

text \<open>
  The exponent of a positive rational; \<open>bitlen n\<close> is the number of binary digits of \<open>n\<close>.
\<close>

definition binary_exponent :: "rat \<Rightarrow> int" where
  "binary_exponent a =
     (if 1 \<le> a then bitlen \<lfloor>a\<rfloor> - 1 else - bitlen (\<lceil>1 / a\<rceil> - 1))"

definition binary32 :: "rat \<Rightarrow> rat" where
  "binary32 x =
     (if x = 0 then 0
      else sgn x * of_int (round_half_even (\<bar>x\<bar> / pow2 (binary_exponent \<bar>x\<bar> - 23)))
             * pow2 (binary_exponent \<bar>x\<bar> - 23))"

text \<open>
  The value of \<^verbatim>\<open>(float)count / minutes\<close>: \<open>count\<close> is converted to \<open>float\<close>, then
  \<open>minutes\<close> is (the usual arithmetic conversions), and the two are divided in \<open>float\<close>;
  each of the three steps rounds.  A division by \<open>minutes = 0\<close> gives an infinity or a NaN,
  not a number: \<open>NonFinite\<close>.
\<close>

datatype apm_value = Rate rat | NonFinite

definition float_quotient :: "int \<Rightarrow> int \<Rightarrow> apm_value" where
  "float_quotient count minutes =
     (if minutes = 0 then NonFinite
      else Rate (binary32 (binary32 (of_int count) / binary32 (of_int minutes))))"

text \<open>
  The counting loop
  \<^verbatim>\<open>for (int i = 0; i < n; i++) if (event_buffer[idx].timestamp >= cutoff) count++;\<close>
  where \<open>idx\<close> is computed from \<open>i\<close>: \<open>count_loop buf idx cutoff n\<close> is the value of \<open>count\<close>
  after the iterations \<open>i = 0, \<dots>, n - 1\<close>.
\<close>

fun count_loop :: "(int \<Rightarrow> time_t) \<Rightarrow> (int \<Rightarrow> int) \<Rightarrow> time_t \<Rightarrow> nat \<Rightarrow> fault + int" where
  "count_loop buf idx cutoff 0 = Inr 0"
| "count_loop buf idx cutoff (Suc n) =
     (case count_loop buf idx cutoff n of
        Inl e \<Rightarrow> Inl e
      | Inr count \<Rightarrow>
          if \<not> in_buffer (idx (int n)) then Inl OutOfBounds
          else if buf (idx (int n)) \<ge> cutoff then Inr (count + 1)
          else Inr count)"

text \<open>
  \<open>calculate_apm_with_time\<close> (lines 123--149).  The first branch scans the slots
  \<open>0 \<dots> event_count - 1\<close>; the second, for \<open>event_count > MAX_EVENTS\<close>, computes its index with
  \<open>% MAX_EVENTS\<close>.
\<close>

definition calculate_apm_with_time :: "int \<Rightarrow> time_t \<Rightarrow> tracker \<Rightarrow> fault + apm_value" where
  "calculate_apm_with_time minutes current_time s =
     (case event_buffer s of
        None \<Rightarrow> Inr (Rate 0)
      | Some buf \<Rightarrow>
          if event_count s = 0 then Inr (Rate 0)
          else
            (let cutoff = cutoff_time minutes current_time in
             case (if event_count s \<le> MAX_EVENTS
                   then count_loop buf (\<lambda>i. i) cutoff (nat (event_count s))
                   else count_loop buf
                          (\<lambda>i. rem_MAX_EVENTS (event_index s - MAX_EVENTS + i + MAX_EVENTS))
                          cutoff (nat MAX_EVENTS)) of
               Inl e \<Rightarrow> Inl e
             | Inr count \<Rightarrow> Inr (float_quotient count minutes)))"

section \<open>The data file\<close>

text \<open>
  \<open>FileHeader\<close> is the struct of three \<open>uint32_t\<close> of the header file.  The data file is
  read and written one object at a time (\<open>fread\<close> and \<open>fwrite\<close> with a count of 1), so its
  contents are modelled as the objects it holds: the header, absent when the file is
  shorter than one \<open>FileHeader\<close>, and the complete \<open>EventData\<close> records that follow it.
  Of the file system, the model keeps whether the directory \<open>/var/lib/apm_tracker\<close> exists
  and the contents of \<open>DATA_FILE\<close>, if it exists.
\<close>

record FileHeader =
  magic :: "32 word"
  version :: "32 word"
  num_events :: "32 word"

record data_file =
  header :: "FileHeader option"
  entries :: "time_t list"

record filesystem =
  data_dir :: bool
  data :: "data_file option"

text \<open>The lines the two functions print (\<open>perror\<close>, \<open>fprintf(stderr, ...)\<close>, \<open>printf\<close>).\<close>

datatype message =
    Cannot_create_data_directory
  | Cannot_open_data_file_for_writing
  | Failed_to_write_file_header
  | Failed_to_write_event_data
  | Event_buffer_not_allocated
  | Failed_to_read_file_header
  | Invalid_data_file_format
  | Unsupported_data_file_version "32 word"
  | Failed_to_allocate_memory
  | Failed_to_read_event_data
  | Loaded_events int

section \<open>\<open>save_data\<close>\<close>

text \<open>
  What the environment answers to a call of \<open>save_data\<close>: whether \<open>mkdir\<close> and
  \<open>fopen(DATA_FILE, "wb")\<close> succeed, how many calls of \<open>fwrite\<close> succeed before one
  fails, and how much of what was written reaches the file.

  \<open>fwrite\<close> copies into the buffer of the stream; the bytes are written to the file when
  the buffer is full and when \<open>fclose\<close> flushes it.  \<open>save_data\<close> does not look at the
  result of \<open>fclose\<close> (line 204), so when that last write fails nothing is printed and the
  file keeps only what was written to it before: nothing at all when the data is smaller
  than the buffer.  \<open>flushed\<close> is \<open>None\<close> when every byte written reached the file, and
  \<open>Some n\<close> when only the first \<open>n\<close> bytes did.
\<close>

record save_io =
  mkdir_ok :: bool
  fopen_ok :: bool
  fwrite_ok :: nat
  flushed :: "nat option"

text \<open>
  The objects of \<open>f\<close> that lie within the bytes that reached the file:
  \<open>sizeof(FileHeader)\<close> is \<open>12\<close> and \<open>sizeof(EventData)\<close> is \<open>8\<close>.
\<close>

definition kept_in_file :: "nat option \<Rightarrow> data_file \<Rightarrow> data_file" where
  "kept_in_file kept f =
     (case kept of
        None \<Rightarrow> f
      | Some n \<Rightarrow>
          if n < 12 then \<lparr>header = None, entries = []\<rparr>
          else \<lparr>header = header f, entries = take ((n - 12) div 8) (entries f)\<rparr>)"

text \<open>
  The index of the \<open>i\<close>-th record written:
  \<^verbatim>\<open>int idx = (event_index - event_count + i + MAX_EVENTS) % MAX_EVENTS;\<close>
\<close>

definition save_index :: "tracker \<Rightarrow> int \<Rightarrow> int" where
  "save_index s i = rem_MAX_EVENTS (event_index s - event_count s + i + MAX_EVENTS)"

text \<open>
  The loop \<^verbatim>\<open>for (int i = 0; i < event_count && i < MAX_EVENTS; i++)\<close> of \<open>save_data\<close>,
  from the iteration \<open>i\<close> on, with \<open>r\<close> iterations to go and \<open>k\<close> successful \<open>fwrite\<close>s
  left.  It returns the records written and whether the loop ran to its end.
\<close>

fun write_events ::
  "tracker \<Rightarrow> (int \<Rightarrow> time_t) \<Rightarrow> nat \<Rightarrow> int \<Rightarrow> nat \<Rightarrow> fault + (bool \<times> time_t list)" where
  "write_events s buf 0 i k = Inr (True, [])"
| "write_events s buf (Suc r) i k =
     (if \<not> in_buffer (save_index s i) then Inl OutOfBounds
      else if k = 0 then Inr (False, [])
      else
        (case write_events s buf r (i + 1) (k - 1) of
           Inl e \<Rightarrow> Inl e
         | Inr (finished, ws) \<Rightarrow> Inr (finished, buf (save_index s i) # ws)))"

text \<open>
  \<open>save_data\<close> (lines 158--205).  It assigns to no global: the store it returns is the store
  it was given.  \<open>fopen\<close> with mode \<open>"wb"\<close> empties the file; what the file holds after
  \<open>fclose\<close> is the part of the objects passed to \<open>fwrite\<close> that reached it.
\<close>

definition save_data ::
  "save_io \<Rightarrow> filesystem \<Rightarrow> tracker \<Rightarrow> fault + (message list \<times> filesystem \<times> tracker)" where
  "save_data io fs s =
     (case event_buffer s of
        None \<Rightarrow> Inr ([], fs, s)
      | Some buf \<Rightarrow>
          if event_count s = 0 then Inr ([], fs, s)
          else if \<not> data_dir fs \<and> \<not> mkdir_ok io then
            Inr ([Cannot_create_data_directory], fs, s)
          else if \<not> fopen_ok io then
            Inr ([Cannot_open_data_file_for_writing], fs\<lparr>data_dir := True\<rparr>, s)
          else if fwrite_ok io = 0 then
            Inr ([Failed_to_write_file_header],
                 fs\<lparr>data_dir := True, data := Some \<lparr>header = None, entries = []\<rparr>\<rparr>, s)
          else
            (case write_events s buf (nat (min (event_count s) MAX_EVENTS)) 0
                    (fwrite_ok io - 1) of
               Inl e \<Rightarrow> Inl e
             | Inr (finished, ws) \<Rightarrow>
                 Inr (if finished then [] else [Failed_to_write_event_data],
                      fs\<lparr>data_dir := True,
                         data := Some (kept_in_file (flushed io)
                           \<lparr>header = Some \<lparr>magic = 0x00415041, version = 1,
                                           num_events = word_of_int (event_count s)\<rparr>,
                            entries = ws\<rparr>)\<rparr>,
                      s)))"

text \<open>
  The sequence of timestamps that \<open>save_data\<close> passes to \<open>fwrite\<close> when no call fails: the
  program's oldest-to-newest reconstruction of the buffer.
\<close>

definition chronological_view :: "tracker \<Rightarrow> time_t list" where
  "chronological_view s =
     (case event_buffer s of
        None \<Rightarrow> []
      | Some buf \<Rightarrow>
          map (\<lambda>i. buf (save_index s (int i))) [0..<nat (min (event_count s) MAX_EVENTS)])"

section \<open>\<open>load_data\<close>\<close>

text \<open>
  The reading loop: up to \<open>n\<close> records, one \<open>fread\<close> each, stopping at the first that
  fails (the end of the file).
\<close>

fun read_events :: "nat \<Rightarrow> time_t list \<Rightarrow> time_t list" where
  "read_events 0 f = []"
| "read_events (Suc n) [] = []"
| "read_events (Suc n) (x # f) = x # read_events n f"

text \<open>
  The copying loop \<^verbatim>\<open>for (int i = 0; i < n; i++) event_buffer[i] = temp_buffer[start + i];\<close>:
  the buffer after the iterations \<open>i = 0, \<dots>, n - 1\<close>.
\<close>

fun copy_events :: "(int \<Rightarrow> time_t) \<Rightarrow> time_t list \<Rightarrow> int \<Rightarrow> nat \<Rightarrow> (int \<Rightarrow> time_t)" where
  "copy_events buf temp start 0 = buf"
| "copy_events buf temp start (Suc n) =
     (copy_events buf temp start n)(int n := temp ! nat (start + int n))"

text \<open>
  \<open>load_data\<close> (lines 208--291); \<open>malloc_ok\<close> says whether the allocation of the temporary
  buffer succeeds.  \<open>int to_read = header.num_events\<close> converts an unsigned 32-bit value to
  \<open>int\<close>: \<open>sint\<close>.  The count is clamped to \<open>MAX_EVENTS\<close> before anything is read, so
  \<open>events_read \<le> MAX_EVENTS\<close> always and the second branch of the copy is never taken; it is
  kept as the source has it.  All indices of the two copies are within the arrays.
\<close>

definition load_data :: "bool \<Rightarrow> filesystem \<Rightarrow> tracker \<Rightarrow> message list \<times> tracker" where
  "load_data malloc_ok fs s =
     (case event_buffer s of
        None \<Rightarrow> ([Event_buffer_not_allocated], s)
      | Some buf \<Rightarrow>
          (case data fs of
             None \<Rightarrow> ([], s)
           | Some f \<Rightarrow>
               (case header f of
                  None \<Rightarrow> ([Failed_to_read_file_header], s)
                | Some h \<Rightarrow>
                    if magic h \<noteq> 0x00415041 then ([Invalid_data_file_format], s)
                    else if version h \<noteq> 1 then
                      ([Unsupported_data_file_version (version h)], s)
                    else
                      (let to_read = (if sint (num_events h) > MAX_EVENTS then MAX_EVENTS
                                      else sint (num_events h))
                       in if \<not> malloc_ok then ([Failed_to_allocate_memory], s)
                          else
                            (let temp_buffer = read_events (nat to_read) (entries f);
                                 events_read = int (length temp_buffer);
                                 short = (if events_read < to_read
                                          then [Failed_to_read_event_data] else [])
                             in if events_read \<le> MAX_EVENTS then
                                  (short @ [Loaded_events events_read],
                                   s\<lparr>event_buffer :=
                                        Some (copy_events buf temp_buffer 0 (nat events_read)),
                                      event_count := events_read,
                                      event_index := events_read\<rparr>)
                                else
                                  (short @ [Loaded_events MAX_EVENTS],
                                   s\<lparr>event_buffer :=
                                        Some (copy_events buf temp_buffer
                                                (events_read - MAX_EVENTS) (nat MAX_EVENTS)),
                                      event_count := MAX_EVENTS,
                                      event_index := 0\<rparr>))))))"

section \<open>Notions used in the statements\<close>

text \<open>
  The states that \<open>add_event\<close> reaches from an empty store: the cursor only ever takes the
  two values \<open>0\<close> and \<open>86400\<close>, because \<open>(0 + 1) % 7 * 86400 = 86400\<close> and
  \<open>(86400 + 1) % 7 * 86400 = 0\<close> (\<open>86401 = 7 * 12343\<close>).
\<close>

definition cursor_ok :: "tracker \<Rightarrow> bool" where
  "cursor_ok s \<longleftrightarrow>
     event_buffer s \<noteq> None \<and> (event_index s = 0 \<or> event_index s = 86400) \<and>
     0 \<le> event_count s \<and> event_count s \<le> MAX_EVENTS"

text \<open>
  The buffer after storing the timestamps \<open>ts\<close> one after the other, the cursor starting
  at \<open>c\<close> and alternating between \<open>c\<close> and \<open>86400 - c\<close>.
\<close>

fun place :: "time_t list \<Rightarrow> int \<Rightarrow> (int \<Rightarrow> time_t) \<Rightarrow> (int \<Rightarrow> time_t)" where
  "place [] c m = m"
| "place (t # ts) c m = place ts (86400 - c) (m(c := t))"

text \<open>
  The file that \<open>save_data\<close> leaves behind when every call succeeds and everything written
  reaches the file, and the answers of the environment with which that happens.
\<close>

definition saved_file :: "tracker \<Rightarrow> data_file" where
  "saved_file s =
     \<lparr>header = Some \<lparr>magic = 0x00415041, version = 1,
                     num_events = word_of_int (event_count s)\<rparr>,
      entries = chronological_view s\<rparr>"

definition save_io_ok :: "save_io \<Rightarrow> filesystem \<Rightarrow> tracker \<Rightarrow> bool" where
  "save_io_ok io fs s \<longleftrightarrow>
     (data_dir fs \<or> mkdir_ok io) \<and> fopen_ok io \<and>
     nat (min (event_count s) MAX_EVENTS) < fwrite_ok io \<and> flushed io = None"

text \<open>
  The chronological view in the words of the specification (section 3), for comparison
  with what the program does: the records from oldest to newest are the slots
  \<open>0, \<dots>, length - 1\<close> while \<open>length < capacity\<close>, and the slots
  \<open>write_cursor, write_cursor + 1, \<dots>, write_cursor - 1\<close> (modulo the capacity) once
  \<open>length = capacity\<close>.
\<close>

definition spec_chronological_view :: "tracker \<Rightarrow> time_t list" where
  "spec_chronological_view s =
     (case event_buffer s of
        None \<Rightarrow> []
      | Some buf \<Rightarrow>
          if event_count s < MAX_EVENTS
          then map (\<lambda>i. buf (int i)) [0..<nat (event_count s)]
          else map (\<lambda>i. buf ((event_index s + int i) mod MAX_EVENTS)) [0..<nat MAX_EVENTS])"

section \<open>Recording events\<close>

lemma rem_MAX_EVENTS_1: "rem_MAX_EVENTS (0 + 1) = 86400"
  by (simp add: rem_MAX_EVENTS_def signed_modulo_int_def)

lemma rem_MAX_EVENTS_86401: "rem_MAX_EVENTS (86400 + 1) = 0"
  by (simp add: rem_MAX_EVENTS_def signed_modulo_int_def)

lemma cursor_ok_fresh: "cursor_ok (fresh_store m)"
  by (simp add: cursor_ok_def fresh_store_def MAX_EVENTS_def)

lemma add_event_cursor_ok:
  assumes "cursor_ok s"
  shows "\<exists>s1. add_event now s = Inr s1 \<and> cursor_ok s1 \<and>
           event_count s1 = min (event_count s + 1) MAX_EVENTS"
proof -
  from assms obtain buf where buf: "event_buffer s = Some buf"
    by (auto simp: cursor_ok_def)
  from assms have idx: "event_index s = 0 \<or> event_index s = 86400"
    and cnt: "0 \<le> event_count s" "event_count s \<le> MAX_EVENTS"
    by (auto simp: cursor_ok_def)
  from idx have inb: "in_buffer (event_index s)"
    by (auto simp: in_buffer_def MAX_EVENTS_def)
  from idx have nxt: "rem_MAX_EVENTS (event_index s + 1) = 0 \<or>
      rem_MAX_EVENTS (event_index s + 1) = 86400"
    using rem_MAX_EVENTS_1 rem_MAX_EVENTS_86401 by auto
  show ?thesis
    using buf inb nxt cnt
    by (auto simp: add_event_def write_slot_def cursor_ok_def)
qed

lemma add_events_count:
  "cursor_ok s \<Longrightarrow>
   \<exists>s1. add_events ts s = Inr s1 \<and> cursor_ok s1 \<and>
        event_count s1 = min (event_count s + int (length ts)) MAX_EVENTS"
proof (induction ts arbitrary: s)
  case Nil
  then show ?case by (simp add: cursor_ok_def)
next
  case (Cons t ts)
  from add_event_cursor_ok [OF Cons.prems, of t] obtain s1 where
    s1: "add_event t s = Inr s1" "cursor_ok s1"
        "event_count s1 = min (event_count s + 1) MAX_EVENTS"
    by blast
  from Cons.IH [OF s1(2)] obtain s2 where
    s2: "add_events ts s1 = Inr s2" "cursor_ok s2"
        "event_count s2 = min (event_count s1 + int (length ts)) MAX_EVENTS"
    by blast
  from s1 s2 show ?case by auto
qed

text \<open>
  C5.  Whatever the sequence of \<open>add_event\<close> calls on an empty store, every call returns,
  the number of records held never exceeds \<open>MAX_EVENTS\<close>, and after more than
  \<open>MAX_EVENTS\<close> calls it is exactly \<open>MAX_EVENTS\<close>.  (The list ranges over all sequences, so
  the bound holds after each call of a longer run as well.)
\<close>

theorem add_events_capacity_bound:
  "\<exists>s1. add_events ts (fresh_store m) = Inr s1 \<and>
        event_count s1 \<le> MAX_EVENTS \<and>
        (MAX_EVENTS < int (length ts) \<longrightarrow> event_count s1 = MAX_EVENTS)"
proof -
  from add_events_count [OF cursor_ok_fresh, of ts m] obtain s1 where
    "add_events ts (fresh_store m) = Inr s1"
    "event_count s1 = min (event_count (fresh_store m) + int (length ts)) MAX_EVENTS"
    by blast
  then show ?thesis by (auto simp: fresh_store_def)
qed

theorem add_events_capacity_bound_witness:
  "MAX_EVENTS < int (length (replicate 604801 (0::int))) \<and>
   (\<exists>s1. add_events (replicate 604801 0) (fresh_store (\<lambda>_. 0)) = Inr s1 \<and>
         event_count s1 \<le> MAX_EVENTS \<and> event_count s1 = MAX_EVENTS)"
  using add_events_capacity_bound [of "replicate 604801 0" "\<lambda>_. 0"]
  by (simp add: MAX_EVENTS_def)

subsection \<open>What the buffer holds after a run of \<open>add_event\<close>\<close>

lemma add_event_toggle:
  assumes "cursor_ok s" and "event_buffer s = Some m"
  shows "add_event t s =
     Inr \<lparr>event_buffer = Some (m(event_index s := t)),
          event_count = min (event_count s + 1) MAX_EVENTS,
          event_index = 86400 - event_index s\<rparr>"
proof -
  from assms(1) have idx: "event_index s = 0 \<or> event_index s = 86400"
    and cnt: "event_count s \<le> MAX_EVENTS"
    by (auto simp: cursor_ok_def)
  from idx have inb: "in_buffer (event_index s)"
    by (auto simp: in_buffer_def MAX_EVENTS_def)
  from idx have nxt: "rem_MAX_EVENTS (event_index s + 1) = 86400 - event_index s"
    using rem_MAX_EVENTS_1 rem_MAX_EVENTS_86401 by auto
  show ?thesis
    using assms(2) inb nxt cnt
    by (cases s) (auto simp: add_event_def write_slot_def)
qed

lemma add_events_place:
  "cursor_ok s \<Longrightarrow> event_buffer s = Some m \<Longrightarrow>
   add_events ts s =
     Inr \<lparr>event_buffer = Some (place ts (event_index s) m),
          event_count = min (event_count s + int (length ts)) MAX_EVENTS,
          event_index = (if even (length ts) then event_index s else 86400 - event_index s)\<rparr>"
proof (induction ts arbitrary: s m)
  case Nil
  then show ?case by (cases s) (simp add: cursor_ok_def)
next
  case (Cons t ts)
  let ?s1 = "\<lparr>event_buffer = Some (m(event_index s := t)),
              event_count = min (event_count s + 1) MAX_EVENTS,
              event_index = 86400 - event_index s\<rparr>"
  have step: "add_event t s = Inr ?s1"
    using Cons.prems by (rule add_event_toggle)
  from Cons.prems(1) have ok1: "cursor_ok ?s1"
    by (auto simp: cursor_ok_def MAX_EVENTS_def)
  have buf1: "event_buffer ?s1 = Some (m(event_index s := t))" by simp
  from Cons.prems(1) have cnt: "0 \<le> event_count s" by (simp add: cursor_ok_def)
  have "add_events ts ?s1 =
     Inr \<lparr>event_buffer = Some (place ts (event_index ?s1) (m(event_index s := t))),
          event_count = min (event_count ?s1 + int (length ts)) MAX_EVENTS,
          event_index = (if even (length ts) then event_index ?s1 else 86400 - event_index ?s1)\<rparr>"
    using ok1 buf1 by (rule Cons.IH)
  then show ?case
    using step cnt by (simp add: min_def)
qed

lemma place_other: "j \<noteq> c \<Longrightarrow> j \<noteq> 86400 - c \<Longrightarrow> place ts c m j = m j"
  by (induction ts arbitrary: c m) auto

lemma place_snoc:
  "place (ts @ [t]) c m = (place ts c m)((if even (length ts) then c else 86400 - c) := t)"
  by (induction ts arbitrary: c m) auto

lemma place_last_two:
  assumes "odd (length ts)"
  shows "place (ts @ [a, b]) 0 m = m(86400 := a, 0 := b)"
proof
  fix j
  have "ts @ [a, b] = (ts @ [a]) @ [b]" by simp
  then have "place (ts @ [a, b]) 0 m = (place ts 0 m)(86400 := a, 0 := b)"
    using assms by (simp only: place_snoc) simp
  then show "place (ts @ [a, b]) 0 m j = (m(86400 := a, 0 := b)) j"
    by (simp add: place_other)
qed

lemma upt_604801: "[0..<604801] = [0..<604799] @ [604799, 604800]"
proof -
  have "[0..<604799 + 2] = [0..<604799] @ [604799..<604799 + 2]"
    by (rule upt_add_eq_append) simp
  moreover have "[604799..<604799 + 2] = [604799, 604800::nat]"
    by simp
  ultimately show ?thesis by simp
qed

text \<open>
  C2.  The claim: after \<open>C + k\<close> events with strictly increasing timestamps, the
  oldest-to-newest reconstruction used by \<open>save_data\<close> yields the last \<open>C\<close> timestamps in
  increasing order.  The program does not do this.  With \<open>C = MAX_EVENTS = 604800\<close>,
  \<open>k = 1\<close> and the timestamps \<open>0, 1, \<dots>, 604800\<close> recorded into an empty store whose
  memory holds \<open>-1\<close> everywhere, only the slots \<open>0\<close> and \<open>86400\<close> have ever been written:
  they hold the last two timestamps and every other slot still holds \<open>-1\<close>.  The
  reconstruction reads the slots \<open>((86400 + i) % 7) * 86400\<close>, so it begins
  \<open>-1, 604800, 604799, -1, -1, -1, -1\<close> where the claim requires \<open>1, 2, 3, 4, 5, 6, 7\<close>.
\<close>

theorem add_events_wraparound_lost:
  "add_events (map int [0..<604801]) (fresh_store (\<lambda>_. - 1)) =
     Inr \<lparr>event_buffer = Some ((\<lambda>_. - 1)(86400 := 604799, 0 := 604800)),
          event_count = 604800, event_index = 86400\<rparr> \<and>
   take 7 (chronological_view
     \<lparr>event_buffer = Some ((\<lambda>_. - 1)(86400 := 604799, 0 := 604800)),
      event_count = 604800, event_index = 86400\<rparr>) = [- 1, 604800, 604799, - 1, - 1, - 1, - 1]"
proof -
  let ?m = "\<lambda>_::int. - 1 :: int"
  have split: "map int [0..<604801] = map int [0..<604799] @ [604799, 604800]"
    by (simp only: upt_604801 map_append) simp
  have odd: "odd (length (map int [0..<604799]))" by simp
  have buf: "event_buffer (fresh_store ?m) = Some ?m" by (simp add: fresh_store_def)
  have pl: "place (map int [0..<604801]) 0 ?m = ?m(86400 := 604799, 0 := 604800)"
    unfolding split using odd by (rule place_last_two)
  have run: "add_events (map int [0..<604801]) (fresh_store ?m) =
     Inr \<lparr>event_buffer = Some (?m(86400 := 604799, 0 := 604800)),
          event_count = 604800, event_index = 86400\<rparr>"
    using add_events_place [OF cursor_ok_fresh buf, of "map int [0..<604801]"] pl
    by (simp add: fresh_store_def MAX_EVENTS_def)
  have "take 7 [0..<604800] = [0..<0 + 7]"
    by (rule take_upt) simp
  moreover have "[0..<0 + 7] = [0, 1, 2, 3, 4, 5, 6::nat]"
    by code_simp
  ultimately have seven: "take 7 [0..<604800] = [0, 1, 2, 3, 4, 5, 6::nat]"
    by (rule trans)
  have view: "take 7 (chronological_view
     \<lparr>event_buffer = Some (?m(86400 := 604799, 0 := 604800)),
      event_count = 604800, event_index = 86400\<rparr>) = [- 1, 604800, 604799, - 1, - 1, - 1, - 1]"
    by (simp add: chronological_view_def MAX_EVENTS_def take_map seven
        save_index_def rem_MAX_EVENTS_def signed_modulo_int_def)
  from run view show ?thesis by simp
qed

section \<open>The rate\<close>

lemma finite_slots: "finite {i::int. 0 \<le> i \<and> i < n \<and> P i}"
proof -
  have "{i::int. 0 \<le> i \<and> i < n \<and> P i} \<subseteq> {0..<n}" by auto
  then show ?thesis by (rule finite_subset) simp
qed

lemma slots_Suc_in:
  "P (int n) \<Longrightarrow> {i::int. 0 \<le> i \<and> i < int n + 1 \<and> P i} =
     insert (int n) {i. 0 \<le> i \<and> i < int n \<and> P i}"
  by auto

lemma slots_Suc_out:
  assumes "\<not> P (int n)"
  shows "{i::int. 0 \<le> i \<and> i < int n + 1 \<and> P i} = {i. 0 \<le> i \<and> i < int n \<and> P i}"
proof -
  have "i < int n + 1 \<longleftrightarrow> i < int n" if "P i" for i
  proof -
    from that assms have "i \<noteq> int n" by auto
    then show ?thesis by linarith
  qed
  then show ?thesis by blast
qed

lemma slots_0: "{i::int. 0 \<le> i \<and> i < 0 \<and> P i} = {}"
  by auto

lemma slots_neg: "c \<le> 0 \<Longrightarrow> {i::int. 0 \<le> i \<and> i < c \<and> P i} = {}"
  by auto

lemma count_loop_slots:
  "int n \<le> MAX_EVENTS \<Longrightarrow>
   count_loop buf (\<lambda>i. i) cutoff n =
     Inr (int (card {i. 0 \<le> i \<and> i < int n \<and> cutoff \<le> buf i}))"
proof (induction n)
  case 0
  have e: "{i. 0 \<le> i \<and> i < int 0 \<and> cutoff \<le> buf i} = {}" by auto
  show ?case unfolding e by simp
next
  case (Suc n)
  let ?A = "\<lambda>k::int. {i. 0 \<le> i \<and> i < k \<and> cutoff \<le> buf i}"
  have k: "int (Suc n) = int n + 1" by simp
  from Suc.prems have inb: "in_buffer (int n)"
    by (simp add: in_buffer_def)
  from Suc have IH: "count_loop buf (\<lambda>i. i) cutoff n = Inr (int (card (?A (int n))))"
    by simp
  have fin: "finite (?A (int n))" by (rule finite_slots)
  have notin: "int n \<notin> ?A (int n)" by simp
  show ?case
  proof (cases "cutoff \<le> buf (int n)")
    case True
    then have "?A (int n + 1) = insert (int n) (?A (int n))"
      by (rule slots_Suc_in [where P = "\<lambda>i. cutoff \<le> buf i"])
    then have "card (?A (int n + 1)) = Suc (card (?A (int n)))"
      using fin notin by (simp del: mem_Collect_eq)
    then show ?thesis
      unfolding k using IH inb True by simp
  next
    case False
    then have "?A (int n + 1) = ?A (int n)"
      by (rule slots_Suc_out [where P = "\<lambda>i. cutoff \<le> buf i"])
    then show ?thesis
      unfolding k using IH inb False by simp
  qed
qed

lemma count_loop_event_count:
  assumes "c \<le> MAX_EVENTS"
  shows "count_loop buf (\<lambda>i. i) cutoff (nat c) =
     Inr (int (card {i. 0 \<le> i \<and> i < c \<and> cutoff \<le> buf i}))"
proof (cases "0 \<le> c")
  case True
  then have c: "int (nat c) = c" by simp
  from assms True have "int (nat c) \<le> MAX_EVENTS" by simp
  from count_loop_slots [OF this, of buf cutoff] show ?thesis
    unfolding c .
next
  case False
  then have "nat c = 0" and "c \<le> 0" by simp_all
  then show ?thesis by (simp add: slots_neg)
qed

lemma wrap_int_id: "int_range x \<Longrightarrow> wrap_int x = x"
  by (simp add: int_range_def wrap_int_def)

lemma wrap_time_t_id: "time_range x \<Longrightarrow> wrap_time_t x = x"
  by (simp add: time_range_def wrap_time_t_def)

lemma cutoff_time_exact:
  "int_range (minutes * 60) \<Longrightarrow> time_range (current_time - minutes * 60) \<Longrightarrow>
   cutoff_time minutes current_time = current_time - minutes * 60"
  by (simp add: cutoff_time_def wrap_int_id wrap_time_t_id)

subsection \<open>The rounding\<close>

text \<open>
  \<open>round_half_even\<close> gives a nearest integer, and \<open>binary_exponent\<close> the exponent.
\<close>

lemma round_half_even_nearest: "\<bar>of_int (round_half_even q) - q\<bar> \<le> 1 / 2"
proof -
  define r where "r = q - of_int \<lfloor>q\<rfloor>"
  have r: "0 \<le> r" "r < 1" unfolding r_def by linarith+
  have q: "q = of_int \<lfloor>q\<rfloor> + r" by (simp add: r_def)
  consider "r < 1 / 2" | "1 / 2 < r" | "r = 1 / 2" by linarith
  then show ?thesis
  proof cases
    case 1
    then have "round_half_even q = \<lfloor>q\<rfloor>" by (simp add: round_half_even_def r_def)
    with 1 r show ?thesis by (simp add: r_def)
  next
    case 2
    then have "round_half_even q = \<lfloor>q\<rfloor> + 1" by (simp add: round_half_even_def r_def)
    with 2 r show ?thesis by (simp add: r_def)
  next
    case 3
    then have "round_half_even q = \<lfloor>q\<rfloor> \<or> round_half_even q = \<lfloor>q\<rfloor> + 1"
      by (simp add: round_half_even_def r_def)
    with 3 show ?thesis by (auto simp: r_def)
  qed
qed

lemma pow2_pos: "0 < pow2 e"
  by (simp add: pow2_def)

lemma pow2_Suc: "pow2 (e + 1) = 2 * pow2 e"
proof (cases "0 \<le> e")
  case True
  then show ?thesis by (simp add: pow2_def nat_add_distrib)
next
  case False
  then have "nat (- e) = Suc (nat (- (e + 1)))" by simp
  with False show ?thesis by (auto simp: pow2_def)
qed

lemma binary_exponent_bounds:
  assumes "0 < a"
  shows "pow2 (binary_exponent a) \<le> a \<and> a < pow2 (binary_exponent a + 1)"
proof (cases "1 \<le> a")
  case True
  define n where "n = \<lfloor>a\<rfloor>"
  from True have n: "0 < n" by (simp add: n_def)
  from bitlen_bounds [OF n] have b: "2 ^ nat (bitlen n - 1) \<le> n" "n < 2 ^ nat (bitlen n)" by simp_all
  from n have bl: "1 \<le> bitlen n"
    using bitlen_eq_zero_iff [of n] bitlen_nonneg [of n] by linarith
  have a: "of_int n \<le> a" "a < of_int n + 1" unfolding n_def by linarith+
  from b(1) have "(of_int (2 ^ nat (bitlen n - 1)) :: rat) \<le> of_int n"
    by (simp only: of_int_le_iff)
  then have lo: "(2::rat) ^ nat (bitlen n - 1) \<le> of_int n" by simp
  from b(2) have "n + 1 \<le> 2 ^ nat (bitlen n)" by simp
  then have "(of_int (n + 1) :: rat) \<le> of_int (2 ^ nat (bitlen n))"
    by (simp only: of_int_le_iff)
  then have hi: "of_int n + 1 \<le> (2::rat) ^ nat (bitlen n)" by simp
  have e: "binary_exponent a = bitlen n - 1"
    using True by (simp add: binary_exponent_def n_def)
  have p1: "pow2 (bitlen n - 1) = 2 ^ nat (bitlen n - 1)"
    using bl by (simp add: pow2_def)
  have p2: "pow2 (bitlen n - 1 + 1) = 2 ^ nat (bitlen n)"
    using bl by (simp add: pow2_def)
  from a lo hi show ?thesis unfolding e p1 p2 by linarith
next
  case False
  define c where "c = \<lceil>1 / a\<rceil>"
  define m where "m = c - 1"
  from False assms have y: "1 < 1 / a" by simp
  then have c2: "2 \<le> c" unfolding c_def by linarith
  then have m: "0 < m" by (simp add: m_def)
  from bitlen_bounds [OF m] have b: "2 ^ nat (bitlen m - 1) \<le> m" "m < 2 ^ nat (bitlen m)" by simp_all
  from m have bl: "1 \<le> bitlen m"
    using bitlen_eq_zero_iff [of m] bitlen_nonneg [of m] by linarith
  have yc: "of_int m < 1 / a" "1 / a \<le> of_int c" unfolding m_def c_def by linarith+
  from b(1) have "(of_int (2 ^ nat (bitlen m - 1)) :: rat) \<le> of_int m"
    by (simp only: of_int_le_iff)
  then have lo: "(2::rat) ^ nat (bitlen m - 1) \<le> of_int m" by simp
  from b(2) have "c \<le> 2 ^ nat (bitlen m)" by (simp add: m_def)
  then have "(of_int c :: rat) \<le> of_int (2 ^ nat (bitlen m))"
    by (simp only: of_int_le_iff)
  then have hi: "of_int c \<le> (2::rat) ^ nat (bitlen m)" by simp
  from yc hi have "1 / a \<le> 2 ^ nat (bitlen m)" by linarith
  with assms have 1: "1 / 2 ^ nat (bitlen m) \<le> a"
    by (simp add: field_simps)
  from yc lo have "2 ^ nat (bitlen m - 1) < 1 / a" by linarith
  with assms have 2: "a < 1 / 2 ^ nat (bitlen m - 1)"
    by (simp add: field_simps)
  have e: "binary_exponent a = - bitlen m"
    using False by (simp add: binary_exponent_def c_def m_def)
  have p1: "pow2 (- bitlen m) = 1 / 2 ^ nat (bitlen m)"
    using bl by (simp add: pow2_def)
  have p2: "pow2 (- bitlen m + 1) = 1 / 2 ^ nat (bitlen m - 1)"
  proof (cases "bitlen m = 1")
    case True
    then show ?thesis by (simp add: pow2_def)
  next
    case False
    with bl have "\<not> 0 \<le> - bitlen m + 1" "nat (- (- bitlen m + 1)) = nat (bitlen m - 1)" by simp_all
    then show ?thesis by (simp add: pow2_def)
  qed
  from 1 2 show ?thesis unfolding e p1 p2 by simp
qed


lemma pow2_powi: "pow2 e = 2 powi e"
  by (simp add: pow2_def power_int_def field_simps)

lemma pow2_add: "pow2 (a + b) = pow2 a * pow2 b"
  by (simp add: pow2_powi power_int_add)

text \<open>
  \<open>binary32 x\<close> is a multiple \<open>n * 2^(e-23)\<close> with \<open>2^23 \<le> n \<le> 2^24\<close>, a number of the
  format, and no multiple of \<open>2^(e-23)\<close> is nearer to \<open>x\<close>.
\<close>

lemma binary32_nearest:
  assumes "x \<noteq> 0"
  defines "u \<equiv> pow2 (binary_exponent \<bar>x\<bar> - 23)"
  defines "n \<equiv> round_half_even (\<bar>x\<bar> / u)"
  shows "binary32 x = sgn x * of_int n * u"
    and "2 ^ 23 \<le> n" and "n \<le> 2 ^ 24"
    and "\<bar>binary32 x - x\<bar> \<le> u / 2"
proof -
  have u: "0 < u" unfolding u_def by (rule pow2_pos)
  show b: "binary32 x = sgn x * of_int n * u"
    using assms(1) by (simp add: binary32_def n_def u_def)
  from assms(1) have pos: "0 < \<bar>x\<bar>" by simp
  from binary_exponent_bounds [OF pos]
  have eb: "pow2 (binary_exponent \<bar>x\<bar>) \<le> \<bar>x\<bar>" "\<bar>x\<bar> < pow2 (binary_exponent \<bar>x\<bar> + 1)"
    by simp_all
  have "binary_exponent \<bar>x\<bar> = 23 + (binary_exponent \<bar>x\<bar> - 23)" by simp
  then have "pow2 (binary_exponent \<bar>x\<bar>) = pow2 23 * u"
    unfolding u_def by (metis pow2_add)
  then have p: "pow2 (binary_exponent \<bar>x\<bar>) = 2 ^ 23 * u" by (simp add: pow2_def)
  have "binary_exponent \<bar>x\<bar> + 1 = 24 + (binary_exponent \<bar>x\<bar> - 23)" by simp
  then have "pow2 (binary_exponent \<bar>x\<bar> + 1) = pow2 24 * u"
    unfolding u_def by (simp only: pow2_add)
  then have p': "pow2 (binary_exponent \<bar>x\<bar> + 1) = 2 ^ 24 * u" by (simp add: pow2_def)
  from eb(1) u have lo: "2 ^ 23 \<le> \<bar>x\<bar> / u"
    unfolding p by (simp add: field_simps)
  from eb(2) u have hi: "\<bar>x\<bar> / u < 2 ^ 24"
    unfolding p' by (simp add: field_simps)
  have near: "\<bar>of_int n - \<bar>x\<bar> / u\<bar> \<le> 1 / 2"
    unfolding n_def by (rule round_half_even_nearest)
  from lo near have "(2 ^ 23 :: rat) - 1 / 2 \<le> of_int n" by linarith
  then have "(of_int (2 ^ 23 - 1) :: rat) < of_int n" by simp
  then have "2 ^ 23 - 1 < n" by (simp only: of_int_less_iff)
  then show "2 ^ 23 \<le> n" by simp
  from hi near have "of_int n < (2 ^ 24 :: rat) + 1 / 2" by linarith
  then have "(of_int n :: rat) < of_int (2 ^ 24 + 1)" by simp
  then have "n < 2 ^ 24 + 1" by (simp only: of_int_less_iff)
  then show "n \<le> 2 ^ 24" by simp
  have "x = sgn x * \<bar>x\<bar>" by (simp add: sgn_mult_abs)
  then have "binary32 x - x = sgn x * of_int n * u - sgn x * \<bar>x\<bar>"
    unfolding b by simp
  then have "binary32 x - x = sgn x * (of_int n * u - \<bar>x\<bar>)"
    by (simp add: algebra_simps)
  also have "of_int n * u - \<bar>x\<bar> = (of_int n - \<bar>x\<bar> / u) * u"
    using u by (simp add: field_simps)
  finally have "\<bar>binary32 x - x\<bar> = \<bar>of_int n - \<bar>x\<bar> / u\<bar> * u"
    using u assms(1) by (simp add: abs_mult abs_sgn_eq)
  with near u show "\<bar>binary32 x - x\<bar> \<le> u / 2"
    by (simp add: field_simps)
qed

subsection \<open>The count and the quotient\<close>

lemma binary32_0: "binary32 0 = 0"
  by (simp add: binary32_def)

lemma float_quotient_0: "float_quotient 0 minutes = (if minutes = 0 then NonFinite else Rate 0)"
  by (simp add: float_quotient_def binary32_0)

text \<open>The rounding shows: \<open>60 / 7\<close> is not a \<open>float\<close>.\<close>

lemma float_quotient_60_7: "float_quotient 60 7 = Rate (4493897 / 524288)"
  by code_simp

lemma float_quotient_60_1: "float_quotient 60 1 = Rate 60"
  by code_simp

lemma float_quotient_60_60: "float_quotient 60 60 = Rate 1"
  by code_simp

lemma apm_counts:
  assumes buf: "event_buffer s = Some buf"
    and cap: "event_count s \<le> MAX_EVENTS"
    and win: "1 \<le> minutes"
  shows "calculate_apm_with_time minutes current_time s =
     Inr (float_quotient
            (int (card {i. 0 \<le> i \<and> i < event_count s \<and>
                           cutoff_time minutes current_time \<le> buf i})) minutes)"
proof (cases "event_count s = 0")
  case True
  from win have "minutes \<noteq> 0" by simp
  with True buf show ?thesis
    by (simp add: calculate_apm_with_time_def slots_neg float_quotient_0)
next
  case False
  show ?thesis
    using buf cap False
      count_loop_event_count [OF cap, of buf "cutoff_time minutes current_time"]
    by (simp add: calculate_apm_with_time_def)
qed

text \<open>
  C6.  The claim: for every window of at least one minute the result is the number of held
  records whose timestamp is at least \<open>current_time - minutes * 60\<close>, divided by \<open>minutes\<close>
  as a \<open>float\<close>.  It fails for the windows whose length in seconds is not an \<open>int\<close>.  With
  \<open>minutes = 40000000\<close> the product \<open>minutes * 60\<close> wraps around to \<open>-1894967296\<close> and the
  cutoff lies \<open>1894967296\<close> seconds after \<open>current_time\<close>: for a store that holds one record,
  stamped \<open>current_time\<close>, the program returns \<open>0.0\<close>, where the claim counts that record
  and gives the \<open>float\<close> nearest to \<open>1 / 40000000\<close>.
\<close>

theorem calculate_apm_with_time_window_wraps:
  "calculate_apm_with_time 40000000 1609459200
     \<lparr>event_buffer = Some (\<lambda>_. 1609459200), event_count = 1, event_index = 1\<rparr> = Inr (Rate 0) \<and>
   card {i. 0 \<le> i \<and>
            i < event_count
                  \<lparr>event_buffer = Some (\<lambda>_. 1609459200), event_count = 1, event_index = 1\<rparr> \<and>
            1609459200 - 40000000 * 60 \<le> (\<lambda>_. 1609459200 :: int) i} = 1 \<and>
   float_quotient 1 40000000 = Rate (14073749 / 562949953421312)"
proof -
  let ?s = "\<lparr>event_buffer = Some (\<lambda>_. 1609459200 :: int), event_count = 1, event_index = 1\<rparr>"
  have cutoff: "cutoff_time 40000000 1609459200 = 3504426496"
    by (simp add: cutoff_time_def wrap_int_def wrap_time_t_def)
  have none: "{i::int. 0 \<le> i \<and> i < 1 \<and> (3504426496::int) \<le> 1609459200} = {}" by simp
  have run: "calculate_apm_with_time 40000000 1609459200 ?s = Inr (Rate 0)"
    using apm_counts [of ?s "\<lambda>_. 1609459200" 40000000 1609459200]
    unfolding cutoff by (simp add: MAX_EVENTS_def float_quotient_0)
  have "{i::int. 0 \<le> i \<and> i < 1} = {0}" by auto
  then have one: "card {i::int. 0 \<le> i \<and> i < 1} = 1" by simp
  have q: "float_quotient 1 40000000 = Rate (14073749 / 562949953421312)"
    by code_simp
  from run one q show ?thesis by simp
qed

text \<open>
  C6, as it holds.  For a store that holds at most \<open>MAX_EVENTS\<close> records and a window of at
  least one minute whose length in seconds is an \<open>int\<close> (\<open>minutes \<le> 35791394\<close>), the cutoff
  being a \<open>time_t\<close>, \<open>calculate_apm_with_time\<close> returns the number of held records (the slots
  \<open>0 \<dots> event_count - 1\<close>) whose timestamp is at least \<open>current_time - minutes * 60\<close>,
  divided by \<open>minutes\<close> in \<open>float\<close>.  The scenarios of the claim follow: the empty store
  (for any window), sixty records one second apart with a window of one minute, sixty
  records one minute apart with a window of sixty.
\<close>

theorem calculate_apm_with_time_counts:
  assumes buf: "event_buffer s = Some buf"
    and cap: "event_count s \<le> MAX_EVENTS"
    and win: "1 \<le> minutes"
    and ovf: "int_range (minutes * 60)" "time_range (current_time - minutes * 60)"
  shows "calculate_apm_with_time minutes current_time s =
     Inr (Rate (binary32
       (binary32 (of_int (int (card {i. 0 \<le> i \<and> i < event_count s \<and>
                                       current_time - minutes * 60 \<le> buf i})))
        / binary32 (of_int minutes))))"
proof -
  from win have "minutes \<noteq> 0" by simp
  then show ?thesis
    using apm_counts [OF buf cap win, of current_time] cutoff_time_exact [OF ovf]
    by (simp add: float_quotient_def)
qed

lemma card_first_slots: "card {i::int. 0 \<le> i \<and> i < 60} = 60"
proof -
  have "{i::int. 0 \<le> i \<and> i < 60} = {0..<60}" by auto
  then show ?thesis by simp
qed

theorem calculate_apm_with_time_counts_witness:
  "event_buffer \<lparr>event_buffer = Some (\<lambda>i. 1609459200 - i), event_count = 60, event_index = 60\<rparr>
     = Some (\<lambda>i. 1609459200 - i) \<and>
   event_count \<lparr>event_buffer = Some (\<lambda>i. 1609459200 - i), event_count = 60, event_index = 60\<rparr>
     \<le> MAX_EVENTS \<and>
   (1::int) \<le> 1 \<and> int_range (1 * 60) \<and> time_range (1609459200 - 1 * 60) \<and>
   calculate_apm_with_time 1 1609459200
     \<lparr>event_buffer = Some (\<lambda>i. 1609459200 - i), event_count = 60, event_index = 60\<rparr>
     = Inr (Rate 60)"
proof -
  let ?s = "\<lparr>event_buffer = Some (\<lambda>i. 1609459200 - i), event_count = 60, event_index = 60\<rparr>"
  have h: "event_buffer ?s = Some (\<lambda>i. 1609459200 - i)" "event_count ?s \<le> MAX_EVENTS"
    "(1::int) \<le> 1" "int_range (1 * 60)" "time_range (1609459200 - 1 * 60)"
    by (simp_all add: MAX_EVENTS_def int_range_def time_range_def)
  have "{i::int. 0 \<le> i \<and> i < 60 \<and> i \<le> 60} = {i. 0 \<le> i \<and> i < 60}" by auto
  then have c: "card {i::int. 0 \<le> i \<and> i < 60 \<and> i \<le> 60} = 60"
    by (simp only: card_first_slots)
  have q: "binary32 (binary32 60 / binary32 1) = 60" by code_simp
  show ?thesis
    using h calculate_apm_with_time_counts [OF h] c q by simp
qed

lemma apm_empty_store:
  "event_count s = 0 \<Longrightarrow> calculate_apm_with_time minutes current_time s = Inr (Rate 0)"
  by (simp add: calculate_apm_with_time_def split: option.split)

lemma apm_last_minute_scenario:
  assumes "time_range (now - 60)"
  shows "calculate_apm_with_time 1 now
     \<lparr>event_buffer = Some (\<lambda>i. now - i), event_count = 60, event_index = 60\<rparr> = Inr (Rate 60)"
proof -
  let ?s = "\<lparr>event_buffer = Some (\<lambda>i. now - i), event_count = 60, event_index = 60\<rparr>"
  have "{i::int. 0 \<le> i \<and> i < 60 \<and> now - 60 \<le> now - i} = {i. 0 \<le> i \<and> i < 60}" by auto
  then have c: "card {i::int. 0 \<le> i \<and> i < 60 \<and> now - 60 \<le> now - i} = 60"
    by (simp only: card_first_slots)
  have cut: "cutoff_time 1 now = now - 60"
    using cutoff_time_exact [of 1 now] assms by (simp add: int_range_def)
  show ?thesis
    using apm_counts [of ?s "\<lambda>i. now - i" 1 now] c
    unfolding cut by (simp add: MAX_EVENTS_def float_quotient_60_1)
qed

lemma apm_last_hour_scenario:
  assumes "time_range (now - 3600)"
  shows "calculate_apm_with_time 60 now
     \<lparr>event_buffer = Some (\<lambda>i. now - i * 60), event_count = 60, event_index = 60\<rparr> = Inr (Rate 1)"
proof -
  let ?s = "\<lparr>event_buffer = Some (\<lambda>i. now - i * 60), event_count = 60, event_index = 60\<rparr>"
  have "{i::int. 0 \<le> i \<and> i < 60 \<and> now - 3600 \<le> now - i * 60} = {i. 0 \<le> i \<and> i < 60}" by auto
  then have c: "card {i::int. 0 \<le> i \<and> i < 60 \<and> now - 3600 \<le> now - i * 60} = 60"
    by (simp only: card_first_slots)
  have cut: "cutoff_time 60 now = now - 3600"
    using cutoff_time_exact [of 60 now] assms by (simp add: int_range_def)
  show ?thesis
    using apm_counts [of ?s "\<lambda>i. now - i * 60" 60 now] c
    unfolding cut by (simp add: MAX_EVENTS_def float_quotient_60_60)
qed




section \<open>Saving\<close>

lemma rem_MAX_EVENTS_in_buffer: "0 \<le> x \<Longrightarrow> in_buffer (rem_MAX_EVENTS x)"
proof -
  assume "0 \<le> x"
  then have "x smod 7 = x mod 7"
    by (simp add: signed_modulo_int_def sgn_if)
  moreover have "0 \<le> x mod 7" "x mod 7 < 7" by simp_all
  ultimately show ?thesis
    by (simp add: rem_MAX_EVENTS_def in_buffer_def MAX_EVENTS_def)
qed

lemma write_events_all:
  "0 \<le> event_index s - event_count s + i + MAX_EVENTS \<Longrightarrow> 0 \<le> i \<Longrightarrow> r \<le> k \<Longrightarrow>
   write_events s buf r i k =
     Inr (True, map (\<lambda>j. buf (save_index s (i + int j))) [0..<r])"
proof (induction r arbitrary: i k)
  case 0
  then show ?case by simp
next
  case (Suc r)
  have inb: "in_buffer (save_index s i)"
    unfolding save_index_def using Suc.prems(1) by (rule rem_MAX_EVENTS_in_buffer)
  from Suc.prems have k: "k \<noteq> 0" "r \<le> k - 1" by auto
  have IH: "write_events s buf r (i + 1) (k - 1) =
     Inr (True, map (\<lambda>j. buf (save_index s (i + 1 + int j))) [0..<r])"
    using Suc.prems k by (intro Suc.IH) auto
  have shift: "map (\<lambda>j. buf (save_index s (i + int j))) [0..<Suc r] =
     buf (save_index s i) # map (\<lambda>j. buf (save_index s (i + 1 + int j))) [0..<r]"
  proof -
    have "[0..<Suc r] = 0 # map Suc [0..<r]"
      by (simp add: upt_conv_Cons map_Suc_upt del: upt_Suc)
    then show ?thesis by (simp add: add.assoc comp_def del: upt_Suc)
  qed
  show ?case
    using inb k IH shift by (simp del: upt_Suc)
qed

lemma write_events_finished:
  "write_events s buf r i k = Inr (True, ws) \<Longrightarrow>
   ws = map (\<lambda>j. buf (save_index s (i + int j))) [0..<r]"
proof (induction r arbitrary: i k ws)
  case 0
  then show ?case by simp
next
  case (Suc r)
  from Suc.prems obtain ws1 where
    rec: "write_events s buf r (i + 1) (k - 1) = Inr (True, ws1)"
    and ws: "ws = buf (save_index s i) # ws1"
    by (auto split: if_splits sum.splits prod.splits)
  from Suc.IH [OF rec] have ws1: "ws1 = map (\<lambda>j. buf (save_index s (i + 1 + int j))) [0..<r]" .
  have "[0..<Suc r] = 0 # map Suc [0..<r]"
    by (simp add: upt_conv_Cons map_Suc_upt del: upt_Suc)
  then show ?case
    using ws ws1 by (simp add: add.assoc comp_def del: upt_Suc)
qed

lemma write_events_returns:
  "0 \<le> event_index s - event_count s + i + MAX_EVENTS \<Longrightarrow> 0 \<le> i \<Longrightarrow>
   \<exists>finished ws. write_events s buf r i k = Inr (finished, ws)"
proof (induction r arbitrary: i k)
  case 0
  then show ?case by auto
next
  case (Suc r)
  have inb: "in_buffer (save_index s i)"
    unfolding save_index_def using Suc.prems(1) by (rule rem_MAX_EVENTS_in_buffer)
  from Suc.prems have "0 \<le> event_index s - event_count s + (i + 1) + MAX_EVENTS" "0 \<le> i + 1"
    by simp_all
  from Suc.IH [OF this] obtain finished ws where
    "write_events s buf r (i + 1) (k - 1) = Inr (finished, ws)" by blast
  with inb show ?case by auto
qed

lemma save_data_ok:
  assumes buf: "event_buffer s = Some buf" and ne: "event_count s \<noteq> 0"
    and wf: "0 \<le> event_index s" "event_count s \<le> MAX_EVENTS"
    and io: "save_io_ok io fs s"
  shows "save_data io fs s = Inr ([], fs\<lparr>data_dir := True, data := Some (saved_file s)\<rparr>, s)"
proof -
  from io have io': "data_dir fs \<or> mkdir_ok io" "fopen_ok io"
    "nat (min (event_count s) MAX_EVENTS) < fwrite_ok io" "flushed io = None"
    by (simp_all add: save_io_ok_def)
  from wf have "0 \<le> event_index s - event_count s + 0 + MAX_EVENTS" by simp
  moreover from io'(3) have "nat (min (event_count s) MAX_EVENTS) \<le> fwrite_ok io - 1" by simp
  ultimately have "write_events s buf (nat (min (event_count s) MAX_EVENTS)) 0 (fwrite_ok io - 1) =
      Inr (True, map (\<lambda>j. buf (save_index s (0 + int j)))
                   [0..<nat (min (event_count s) MAX_EVENTS)])"
    by (intro write_events_all) simp_all
  then show ?thesis
    using buf ne io'
    by (auto simp: save_data_def saved_file_def chronological_view_def kept_in_file_def)
qed

lemma save_data_nothing_to_save:
  "event_buffer s = None \<or> event_count s = 0 \<Longrightarrow> save_data io fs s = Inr ([], fs, s)"
  by (auto simp: save_data_def split: option.split)

text \<open>
  The flush that fails inside \<open>fclose\<close>: every call that \<open>save_data\<close> checks succeeds,
  nothing is printed, and the file is empty.
\<close>

lemma save_data_flush_fails_silently:
  assumes buf: "event_buffer s = Some buf" and ne: "event_count s \<noteq> 0"
    and wf: "0 \<le> event_index s" "event_count s \<le> MAX_EVENTS"
    and io: "data_dir fs \<or> mkdir_ok io" "fopen_ok io"
      "nat (min (event_count s) MAX_EVENTS) < fwrite_ok io" "flushed io = Some 0"
  shows "save_data io fs s =
     Inr ([], fs\<lparr>data_dir := True, data := Some \<lparr>header = None, entries = []\<rparr>\<rparr>, s)"
proof -
  from wf have "0 \<le> event_index s - event_count s + 0 + MAX_EVENTS" by simp
  moreover from io(3) have "nat (min (event_count s) MAX_EVENTS) \<le> fwrite_ok io - 1" by simp
  ultimately have "write_events s buf (nat (min (event_count s) MAX_EVENTS)) 0 (fwrite_ok io - 1) =
      Inr (True, map (\<lambda>j. buf (save_index s (0 + int j)))
                   [0..<nat (min (event_count s) MAX_EVENTS)])"
    by (intro write_events_all) simp_all
  then show ?thesis
    using buf ne io by (auto simp: save_data_def kept_in_file_def)
qed

lemma save_data_returns:
  assumes "0 \<le> event_index s" and "event_count s \<le> MAX_EVENTS"
  shows "\<exists>msgs fs1. save_data io fs s = Inr (msgs, fs1, s)"
proof (cases "event_buffer s")
  case None
  then show ?thesis by (simp add: save_data_def)
next
  case (Some buf)
  from assms have "0 \<le> event_index s - event_count s + 0 + MAX_EVENTS" by simp
  from write_events_returns [OF this, of buf "nat (min (event_count s) MAX_EVENTS)" "fwrite_ok io - 1"]
  obtain finished ws where
    "write_events s buf (nat (min (event_count s) MAX_EVENTS)) 0 (fwrite_ok io - 1)
       = Inr (finished, ws)" by auto
  with Some show ?thesis by (simp add: save_data_def)
qed

text \<open>
  C9.  \<open>save_data\<close> on a store with \<open>0 \<le> event_index\<close> and \<open>event_count \<le> MAX_EVENTS\<close>
  returns and leaves the store as it was, whatever the environment answers; a second call
  right after it does the same.  When in both calls every operation on the file succeeds
  and everything written reaches the file (\<open>save_io_ok\<close>), neither call prints anything and
  the file system after the second call is the one after the first: the second file is
  identical to the first.  The two calls may get different answers from the environment
  (\<open>io1\<close>, \<open>io2\<close>).
\<close>

theorem save_data_twice_identical:
  assumes "0 \<le> event_index s" and "event_count s \<le> MAX_EVENTS"
  shows "\<exists>msgs1 fs1. save_data io1 fs s = Inr (msgs1, fs1, s) \<and>
           (\<exists>msgs2 fs2. save_data io2 fs1 s = Inr (msgs2, fs2, s) \<and>
              (save_io_ok io1 fs s \<and> save_io_ok io2 fs1 s \<longrightarrow>
                 msgs1 = [] \<and> msgs2 = [] \<and> fs2 = fs1))"
proof -
  from save_data_returns [OF assms] obtain msgs1 fs1 where
    a: "save_data io1 fs s = Inr (msgs1, fs1, s)" by blast
  from save_data_returns [OF assms] obtain msgs2 fs2 where
    b: "save_data io2 fs1 s = Inr (msgs2, fs2, s)" by blast
  have "msgs1 = [] \<and> msgs2 = [] \<and> fs2 = fs1"
    if ok: "save_io_ok io1 fs s" "save_io_ok io2 fs1 s"
  proof (cases "event_buffer s = None \<or> event_count s = 0")
    case True
    from save_data_nothing_to_save [OF True] a b show ?thesis by simp
  next
    case False
    then obtain buf where buf: "event_buffer s = Some buf" and ne: "event_count s \<noteq> 0"
      by auto
    from save_data_ok [OF buf ne assms ok(1)] a
    have 1: "msgs1 = []" "fs1 = fs\<lparr>data_dir := True, data := Some (saved_file s)\<rparr>"
      by simp_all
    from save_data_ok [OF buf ne assms ok(2)] b
    have 2: "msgs2 = []" "fs2 = fs1\<lparr>data_dir := True, data := Some (saved_file s)\<rparr>"
      by simp_all
    from 1 2 show ?thesis by simp
  qed
  with a b show ?thesis by blast
qed

theorem save_data_twice_identical_witness:
  "0 \<le> event_index \<lparr>event_buffer = Some ((\<lambda>_. 0)(0 := 10)), event_count = 1, event_index = 1\<rparr> \<and>
   event_count \<lparr>event_buffer = Some ((\<lambda>_. 0)(0 := 10)), event_count = 1, event_index = 1\<rparr>
     \<le> MAX_EVENTS \<and>
   save_io_ok \<lparr>mkdir_ok = True, fopen_ok = True, fwrite_ok = 2, flushed = None\<rparr>
     \<lparr>data_dir = False, data = None\<rparr>
     \<lparr>event_buffer = Some ((\<lambda>_. 0)(0 := 10)), event_count = 1, event_index = 1\<rparr> \<and>
   save_data \<lparr>mkdir_ok = True, fopen_ok = True, fwrite_ok = 2, flushed = None\<rparr>
     \<lparr>data_dir = False, data = None\<rparr>
     \<lparr>event_buffer = Some ((\<lambda>_. 0)(0 := 10)), event_count = 1, event_index = 1\<rparr>
   = Inr ([], \<lparr>data_dir = True,
               data = Some \<lparr>header = Some \<lparr>magic = 0x00415041, version = 1, num_events = 1\<rparr>,
                            entries = [10]\<rparr>\<rparr>,
          \<lparr>event_buffer = Some ((\<lambda>_. 0)(0 := 10)), event_count = 1, event_index = 1\<rparr>) \<and>
   save_io_ok \<lparr>mkdir_ok = False, fopen_ok = True, fwrite_ok = 5, flushed = None\<rparr>
     \<lparr>data_dir = True,
      data = Some \<lparr>header = Some \<lparr>magic = 0x00415041, version = 1, num_events = 1\<rparr>,
                   entries = [10]\<rparr>\<rparr>
     \<lparr>event_buffer = Some ((\<lambda>_. 0)(0 := 10)), event_count = 1, event_index = 1\<rparr> \<and>
   save_data \<lparr>mkdir_ok = False, fopen_ok = True, fwrite_ok = 5, flushed = None\<rparr>
     \<lparr>data_dir = True,
      data = Some \<lparr>header = Some \<lparr>magic = 0x00415041, version = 1, num_events = 1\<rparr>,
                   entries = [10]\<rparr>\<rparr>
     \<lparr>event_buffer = Some ((\<lambda>_. 0)(0 := 10)), event_count = 1, event_index = 1\<rparr>
   = Inr ([], \<lparr>data_dir = True,
               data = Some \<lparr>header = Some \<lparr>magic = 0x00415041, version = 1, num_events = 1\<rparr>,
                            entries = [10]\<rparr>\<rparr>,
          \<lparr>event_buffer = Some ((\<lambda>_. 0)(0 := 10)), event_count = 1, event_index = 1\<rparr>)"
proof -
  let ?s = "\<lparr>event_buffer = Some ((\<lambda>_. 0)(0 := 10)), event_count = 1, event_index = 1\<rparr>"
  let ?io1 = "\<lparr>mkdir_ok = True, fopen_ok = True, fwrite_ok = 2, flushed = None\<rparr>"
  let ?io2 = "\<lparr>mkdir_ok = False, fopen_ok = True, fwrite_ok = 5, flushed = None\<rparr>"
  let ?fs = "\<lparr>data_dir = False, data = None\<rparr>"
  let ?f = "\<lparr>data_dir = True,
             data = Some \<lparr>header = Some \<lparr>magic = 0x00415041, version = 1, num_events = 1\<rparr>,
                          entries = [10]\<rparr>\<rparr>"
  have h: "0 \<le> event_index ?s" "event_count ?s \<le> MAX_EVENTS"
    by (simp_all add: MAX_EVENTS_def)
  have ok: "save_io_ok ?io1 ?fs ?s" "save_io_ok ?io2 ?f ?s"
    by (simp_all add: save_io_ok_def MAX_EVENTS_def)
  have a: "save_data ?io1 ?fs ?s = Inr ([], ?f, ?s)"
    by (simp add: save_data_def eval_nat_numeral save_index_def rem_MAX_EVENTS_def in_buffer_def
        MAX_EVENTS_def signed_modulo_int_def kept_in_file_def)
  from save_data_twice_identical [OF h, of ?io1 ?fs ?io2] a ok obtain msgs2 fs2 where
    b: "save_data ?io2 ?f ?s = Inr (msgs2, fs2, ?s)" and same: "msgs2 = []" "fs2 = ?f"
    by auto
  from b same have "save_data ?io2 ?f ?s = Inr ([], ?f, ?s)" by simp
  with h ok a show ?thesis by simp
qed

section \<open>Loading\<close>

lemma read_events_take: "read_events n f = take n f"
  by (induction n f rule: read_events.induct) simp_all

lemma copy_events_apply:
  "copy_events buf temp start n i =
     (if 0 \<le> i \<and> i < int n then temp ! nat (start + i) else buf i)"
  by (induction n) auto

lemma load_data_reads:
  assumes buf: "event_buffer s = Some buf" and f: "data fs = Some f" and h: "header f = Some h"
    and ok: "magic h = 0x00415041" "version h = 1"
  shows "load_data True fs s =
     ((if int (min (nat (min (sint (num_events h)) MAX_EVENTS)) (length (entries f)))
            < min (sint (num_events h)) MAX_EVENTS
       then [Failed_to_read_event_data] else []) @
      [Loaded_events (int (min (nat (min (sint (num_events h)) MAX_EVENTS)) (length (entries f))))],
      s\<lparr>event_buffer :=
           Some (\<lambda>i. if 0 \<le> i \<and>
                          i < int (min (nat (min (sint (num_events h)) MAX_EVENTS))
                                       (length (entries f)))
                       then entries f ! nat i else buf i),
         event_count := int (min (nat (min (sint (num_events h)) MAX_EVENTS)) (length (entries f))),
         event_index := int (min (nat (min (sint (num_events h)) MAX_EVENTS)) (length (entries f)))\<rparr>)"
proof -
  let ?to_read = "min (sint (num_events h)) MAX_EVENTS"
  let ?n = "min (nat ?to_read) (length (entries f))"
  have tr: "(if sint (num_events h) > MAX_EVENTS then MAX_EVENTS else sint (num_events h)) = ?to_read"
    by (simp add: min_def)
  have len: "length (read_events (nat ?to_read) (entries f)) = ?n"
    by (simp add: read_events_take)
  have le: "int ?n \<le> MAX_EVENTS"
    by (simp add: MAX_EVENTS_def)
  have copy: "copy_events buf (read_events (nat ?to_read) (entries f)) 0 ?n =
      (\<lambda>i. if 0 \<le> i \<and> i < int ?n then entries f ! nat i else buf i)"
  proof
    fix i
    show "copy_events buf (read_events (nat ?to_read) (entries f)) 0 ?n i =
      (if 0 \<le> i \<and> i < int ?n then entries f ! nat i else buf i)"
    proof (cases "0 \<le> i \<and> i < int ?n")
      case True
      then have "nat i < nat ?to_read" by linarith
      then have "take (nat ?to_read) (entries f) ! nat i = entries f ! nat i" by simp
      with True show ?thesis
        unfolding copy_events_apply read_events_take by (simp only: if_True add_0)
    next
      case False
      then show ?thesis unfolding copy_events_apply by (simp only: if_False)
    qed
  qed
  show ?thesis
    unfolding load_data_def Let_def
    using buf f h ok le
    by (simp only: option.case tr len copy if_True if_False not_True_eq_False nat_int simp_thms)
qed

text \<open>
  C7.  When the header of the data file has a wrong magic number or a version other than
  \<open>1\<close>, \<open>load_data\<close> prints its format error (\<open>Invalid data file format\<close>, or
  \<open>Unsupported data file version\<close>) and returns with the store exactly as it was.
\<close>

theorem load_data_rejects_bad_header:
  assumes "event_buffer s \<noteq> None" and "data fs = Some f" and "header f = Some h"
    and "magic h \<noteq> 0x00415041 \<or> version h \<noteq> 1"
  shows "load_data malloc_ok fs s =
     (if magic h \<noteq> 0x00415041 then [Invalid_data_file_format]
      else [Unsupported_data_file_version (version h)], s)"
  using assms by (auto simp: load_data_def)

theorem load_data_rejects_bad_header_witness:
  "event_buffer \<lparr>event_buffer = Some (\<lambda>_. 7), event_count = 3, event_index = 3\<rparr> \<noteq> None \<and>
   data \<lparr>data_dir = True,
         data = Some \<lparr>header = Some \<lparr>magic = 0x004D5041, version = 1, num_events = 2\<rparr>,
                      entries = [1, 2]\<rparr>\<rparr>
     = Some \<lparr>header = Some \<lparr>magic = 0x004D5041, version = 1, num_events = 2\<rparr>,
             entries = [1, 2]\<rparr> \<and>
   header \<lparr>header = Some \<lparr>magic = 0x004D5041, version = 1, num_events = 2\<rparr>, entries = [1, 2]\<rparr>
     = Some \<lparr>magic = 0x004D5041, version = 1, num_events = 2\<rparr> \<and>
   magic \<lparr>magic = 0x004D5041, version = 1, num_events = 2\<rparr> \<noteq> (0x00415041 :: 32 word) \<and>
   load_data True
     \<lparr>data_dir = True,
      data = Some \<lparr>header = Some \<lparr>magic = 0x004D5041, version = 1, num_events = 2\<rparr>,
                   entries = [1, 2]\<rparr>\<rparr>
     \<lparr>event_buffer = Some (\<lambda>_. 7), event_count = 3, event_index = 3\<rparr>
   = ([Invalid_data_file_format],
      \<lparr>event_buffer = Some (\<lambda>_. 7), event_count = 3, event_index = 3\<rparr>)"
proof -
  let ?s = "\<lparr>event_buffer = Some (\<lambda>_::int. 7::int), event_count = 3, event_index = 3\<rparr>"
  let ?h = "\<lparr>magic = 0x004D5041, version = 1, num_events = 2 :: 32 word\<rparr>"
  let ?f = "\<lparr>header = Some ?h, entries = [1, 2::int]\<rparr>"
  let ?fs = "\<lparr>data_dir = True, data = Some ?f\<rparr>"
  have h: "event_buffer ?s \<noteq> None" "data ?fs = Some ?f" "header ?f = Some ?h"
    "magic ?h \<noteq> 0x00415041 \<or> version ?h \<noteq> 1"
    by simp_all
  have m: "magic ?h \<noteq> 0x00415041" by simp
  from load_data_rejects_bad_header [OF h, of True] h(1-3) m show ?thesis by simp
qed

text \<open>
  C8.  When the data file does not exist, \<open>load_data\<close> prints nothing and returns with the
  store as it was: nothing is loaded, and an empty store stays empty.
\<close>

theorem load_data_missing_file:
  assumes "event_buffer s \<noteq> None" and "data fs = None"
  shows "load_data malloc_ok fs s = ([], s)"
  using assms by (auto simp: load_data_def)

theorem load_data_missing_file_witness:
  "event_buffer (fresh_store (\<lambda>_. 0)) \<noteq> None \<and>
   data \<lparr>data_dir = False, data = None\<rparr> = None \<and>
   load_data True \<lparr>data_dir = False, data = None\<rparr> (fresh_store (\<lambda>_. 0)) =
     ([], fresh_store (\<lambda>_. 0))"
proof -
  have h: "event_buffer (fresh_store (\<lambda>_. 0)) \<noteq> None"
    "data \<lparr>data_dir = False, data = None\<rparr> = None"
    by (simp_all add: fresh_store_def)
  from load_data_missing_file [OF h, of True] h show ?thesis by simp
qed

text \<open>
  C1.  The claim: from a file that declares \<open>N > MAX_EVENTS\<close> records the store receives
  the most recent \<open>MAX_EVENTS\<close> of them, the oldest \<open>N - MAX_EVENTS\<close> being discarded.  The
  program clamps the count before it reads, so it reads the first \<open>MAX_EVENTS\<close> records of
  the file, which are the oldest.  For the file that declares \<open>604801\<close> records with the
  timestamps \<open>0, 1, \<dots>, 604800\<close>, the store ends up with the timestamp \<open>i\<close> in slot \<open>i\<close>
  for \<open>i < 604800\<close>: the oldest record \<open>0\<close> is kept and the newest, \<open>604800\<close>, is lost.
\<close>

theorem load_data_keeps_oldest:
  "load_data True
     \<lparr>data_dir = True,
      data = Some \<lparr>header = Some \<lparr>magic = 0x00415041, version = 1, num_events = 604801\<rparr>,
                   entries = map int [0..<604801]\<rparr>\<rparr>
     (fresh_store (\<lambda>_. - 1)) =
   ([Loaded_events 604800],
    \<lparr>event_buffer = Some (\<lambda>i. if 0 \<le> i \<and> i < 604800 then i else - 1),
     event_count = 604800, event_index = 604800\<rparr>)"
proof -
  let ?h = "\<lparr>magic = 0x00415041, version = 1, num_events = 604801 :: 32 word\<rparr>"
  let ?f = "\<lparr>header = Some ?h, entries = map int [0..<604801]\<rparr>"
  let ?fs = "\<lparr>data_dir = True, data = Some ?f\<rparr>"
  let ?m = "\<lambda>_::int. - 1 :: int"
  have n: "min (nat (min (sint (num_events ?h)) MAX_EVENTS)) (length (entries ?f)) = 604800"
    by (simp add: MAX_EVENTS_def)
  have tr: "min (sint (num_events ?h)) MAX_EVENTS = 604800"
    by (simp add: MAX_EVENTS_def)
  have slots: "(\<lambda>i. if 0 \<le> i \<and> i < int 604800 then entries ?f ! nat i else ?m i) =
      (\<lambda>i. if 0 \<le> i \<and> i < 604800 then i else - 1)"
  proof
    fix i :: int
    have "map int [0..<604801] ! nat i = i" if "0 \<le> i" "i < 604800"
    proof -
      from that have "nat i < length [0..<604801]" by simp
      then have "map int [0..<604801] ! nat i = int ([0..<604801] ! nat i)" by (rule nth_map)
      also from that have "[0..<604801] ! nat i = nat i" by simp
      finally show ?thesis using that by simp
    qed
    note nth = this
    show "(if 0 \<le> i \<and> i < int 604800 then entries ?f ! nat i else ?m i) =
      (if 0 \<le> i \<and> i < 604800 then i else - 1)"
    proof (cases "0 \<le> i \<and> i < 604800")
      case True
      with nth have "map int [0..<604801] ! nat i = i" by blast
      with True show ?thesis by simp
    next
      case False
      then show ?thesis by auto
    qed
  qed
  have "load_data True ?fs (fresh_store ?m) =
     ((if int 604800 < (604800::int) then [Failed_to_read_event_data] else []) @
      [Loaded_events (int 604800)],
      (fresh_store ?m)\<lparr>event_buffer :=
           Some (\<lambda>i. if 0 \<le> i \<and> i < int 604800 then entries ?f ! nat i else ?m i),
         event_count := int 604800, event_index := int 604800\<rparr>)"
    using load_data_reads [of "fresh_store ?m" ?m ?fs ?f ?h]
    unfolding n tr by (simp add: fresh_store_def)
  then show ?thesis
    unfolding slots by (simp add: fresh_store_def)
qed

text \<open>
  C4.  The claim: after every operation that changes the store the cursor is within
  \<open>0 \<dots> MAX_EVENTS - 1\<close>, equal to the length while the store is not full and \<open>0\<close> when it
  is.  Loading a file of exactly \<open>MAX_EVENTS\<close> records leaves the cursor at \<open>MAX_EVENTS\<close>,
  outside the array, and the next \<open>add_event\<close> writes there.  And the first \<open>add_event\<close> on
  an empty store leaves the cursor at \<open>86400\<close> with a length of \<open>1\<close>.
\<close>

theorem load_data_full_cursor:
  "load_data True
     \<lparr>data_dir = True,
      data = Some \<lparr>header = Some \<lparr>magic = 0x00415041, version = 1, num_events = 604800\<rparr>,
                   entries = replicate 604800 5\<rparr>\<rparr>
     (fresh_store (\<lambda>_. - 1)) =
   ([Loaded_events 604800],
    \<lparr>event_buffer = Some (\<lambda>i. if 0 \<le> i \<and> i < 604800 then 5 else - 1),
     event_count = 604800, event_index = 604800\<rparr>) \<and>
   add_event t \<lparr>event_buffer = Some (\<lambda>i. if 0 \<le> i \<and> i < 604800 then 5 else - 1),
                event_count = 604800, event_index = 604800\<rparr> = Inl OutOfBounds \<and>
   add_event t (fresh_store m) =
     Inr \<lparr>event_buffer = Some (m(0 := t)), event_count = 1, event_index = 86400\<rparr>"
proof -
  let ?h = "\<lparr>magic = 0x00415041, version = 1, num_events = 604800 :: 32 word\<rparr>"
  let ?f = "\<lparr>header = Some ?h, entries = replicate 604800 (5::int)\<rparr>"
  let ?fs = "\<lparr>data_dir = True, data = Some ?f\<rparr>"
  let ?m = "\<lambda>_::int. - 1 :: int"
  have n: "min (nat (min (sint (num_events ?h)) MAX_EVENTS)) (length (entries ?f)) = 604800"
    by (simp add: MAX_EVENTS_def)
  have tr: "min (sint (num_events ?h)) MAX_EVENTS = 604800"
    by (simp add: MAX_EVENTS_def)
  have slots: "(\<lambda>i. if 0 \<le> i \<and> i < int 604800 then entries ?f ! nat i else ?m i) =
      (\<lambda>i. if 0 \<le> i \<and> i < 604800 then 5 else - 1)"
  proof
    fix i :: int
    show "(if 0 \<le> i \<and> i < int 604800 then entries ?f ! nat i else ?m i) =
      (if 0 \<le> i \<and> i < 604800 then 5 else - 1)"
    proof (cases "0 \<le> i \<and> i < 604800")
      case True
      then have "nat i < 604800" by linarith
      then have "replicate 604800 (5::int) ! nat i = 5" by (rule nth_replicate)
      with True show ?thesis by simp
    next
      case False
      then show ?thesis by auto
    qed
  qed
  have "load_data True ?fs (fresh_store ?m) =
     ((if int 604800 < (604800::int) then [Failed_to_read_event_data] else []) @
      [Loaded_events (int 604800)],
      (fresh_store ?m)\<lparr>event_buffer :=
           Some (\<lambda>i. if 0 \<le> i \<and> i < int 604800 then entries ?f ! nat i else ?m i),
         event_count := int 604800, event_index := int 604800\<rparr>)"
    using load_data_reads [of "fresh_store ?m" ?m ?fs ?f ?h]
    unfolding n tr by (simp add: fresh_store_def)
  then have load: "load_data True ?fs (fresh_store ?m) =
   ([Loaded_events 604800],
    \<lparr>event_buffer = Some (\<lambda>i. if 0 \<le> i \<and> i < 604800 then 5 else - 1),
     event_count = 604800, event_index = 604800\<rparr>)"
    unfolding slots by (simp add: fresh_store_def)
  have next_event: "add_event t \<lparr>event_buffer = Some (\<lambda>i. if 0 \<le> i \<and> i < 604800 then 5 else - 1),
                event_count = 604800, event_index = 604800\<rparr> = Inl OutOfBounds"
    by (simp add: add_event_def write_slot_def in_buffer_def MAX_EVENTS_def)
  have first_event: "add_event t (fresh_store m) =
     Inr \<lparr>event_buffer = Some (m(0 := t)), event_count = 1, event_index = 86400\<rparr>"
    by (simp add: add_event_def write_slot_def in_buffer_def MAX_EVENTS_def fresh_store_def
        rem_MAX_EVENTS_def signed_modulo_int_def)
  from load next_event first_event show ?thesis by simp
qed

lemma load_three:
  "load_data True
     \<lparr>data_dir = d,
      data = Some \<lparr>header = Some \<lparr>magic = 0x00415041, version = 1, num_events = 3\<rparr>,
                   entries = [a, b, c]\<rparr>\<rparr>
     (fresh_store z) =
   ([Loaded_events 3],
    \<lparr>event_buffer = Some (z(0 := a, 1 := b, 2 := c)), event_count = 3, event_index = 3\<rparr>)"
proof -
  let ?h = "\<lparr>magic = 0x00415041, version = 1, num_events = 3 :: 32 word\<rparr>"
  let ?f = "\<lparr>header = Some ?h, entries = [a, b, c]\<rparr>"
  let ?fs = "\<lparr>data_dir = d, data = Some ?f\<rparr>"
  have n: "min (nat (min (sint (num_events ?h)) MAX_EVENTS)) (length (entries ?f)) = 3"
    by (simp add: MAX_EVENTS_def)
  have tr: "min (sint (num_events ?h)) MAX_EVENTS = 3"
    by (simp add: MAX_EVENTS_def)
  have slots: "(\<lambda>i. if 0 \<le> i \<and> i < int 3 then entries ?f ! nat i else z i) =
      z(0 := a, 1 := b, 2 := c)"
  proof
    fix i :: int
    consider "i = 0" | "i = 1" | "i = 2" | "i < 0 \<or> 3 \<le> i" by linarith
    then show "(if 0 \<le> i \<and> i < int 3 then entries ?f ! nat i else z i) =
      (z(0 := a, 1 := b, 2 := c)) i"
      by cases auto
  qed
  have "load_data True ?fs (fresh_store z) =
     ((if int 3 < (3::int) then [Failed_to_read_event_data] else []) @ [Loaded_events (int 3)],
      (fresh_store z)\<lparr>event_buffer :=
           Some (\<lambda>i. if 0 \<le> i \<and> i < int 3 then entries ?f ! nat i else z i),
         event_count := int 3, event_index := int 3\<rparr>)"
    using load_data_reads [of "fresh_store z" z ?fs ?f ?h]
    unfolding n tr by (simp add: fresh_store_def)
  then show ?thesis
    unfolding slots by (simp add: fresh_store_def)
qed

text \<open>
  C3.  The claim: saving a store and loading the file into a fresh store reproduces the
  timestamps of the store, oldest to newest.  Take the store that \<open>load_data\<close> builds from
  a file with the records \<open>10, 20, 30\<close>: it holds them in the slots \<open>0, 1, 2\<close>.
  \<open>save_data\<close> writes the slots \<open>0\<close>, \<open>86400\<close> and \<open>172800\<close> instead, that is \<open>10, 0, 0\<close>,
  and loading that file gives a store that holds \<open>10, 0, 0\<close>: the records \<open>20\<close> and \<open>30\<close>
  are lost.
\<close>

theorem save_load_loses_records:
  "load_data True
     \<lparr>data_dir = True,
      data = Some \<lparr>header = Some \<lparr>magic = 0x00415041, version = 1, num_events = 3\<rparr>,
                   entries = [10, 20, 30]\<rparr>\<rparr>
     (fresh_store (\<lambda>_. 0)) =
   ([Loaded_events 3],
    \<lparr>event_buffer = Some ((\<lambda>_. 0)(0 := 10, 1 := 20, 2 := 30)),
     event_count = 3, event_index = 3\<rparr>) \<and>
   spec_chronological_view
     \<lparr>event_buffer = Some ((\<lambda>_. 0)(0 := 10, 1 := 20, 2 := 30)),
      event_count = 3, event_index = 3\<rparr> = [10, 20, 30] \<and>
   save_data \<lparr>mkdir_ok = True, fopen_ok = True, fwrite_ok = 4, flushed = None\<rparr>
     \<lparr>data_dir = True, data = None\<rparr>
     \<lparr>event_buffer = Some ((\<lambda>_. 0)(0 := 10, 1 := 20, 2 := 30)),
      event_count = 3, event_index = 3\<rparr> =
   Inr ([],
        \<lparr>data_dir = True,
         data = Some \<lparr>header = Some \<lparr>magic = 0x00415041, version = 1, num_events = 3\<rparr>,
                      entries = [10, 0, 0]\<rparr>\<rparr>,
        \<lparr>event_buffer = Some ((\<lambda>_. 0)(0 := 10, 1 := 20, 2 := 30)),
         event_count = 3, event_index = 3\<rparr>) \<and>
   load_data True
     \<lparr>data_dir = True,
      data = Some \<lparr>header = Some \<lparr>magic = 0x00415041, version = 1, num_events = 3\<rparr>,
                   entries = [10, 0, 0]\<rparr>\<rparr>
     (fresh_store (\<lambda>_. 0)) =
   ([Loaded_events 3],
    \<lparr>event_buffer = Some ((\<lambda>_. 0)(0 := 10, 1 := 0, 2 := 0)),
     event_count = 3, event_index = 3\<rparr>) \<and>
   spec_chronological_view
     \<lparr>event_buffer = Some ((\<lambda>_. 0)(0 := 10, 1 := 0, 2 := 0)),
      event_count = 3, event_index = 3\<rparr> = [10, 0, 0]"
proof -
  have three: "[0..<3] = [0, 1, 2::nat]" by code_simp
  have save: "save_data \<lparr>mkdir_ok = True, fopen_ok = True, fwrite_ok = 4, flushed = None\<rparr>
     \<lparr>data_dir = True, data = None\<rparr>
     \<lparr>event_buffer = Some ((\<lambda>_. 0)(0 := 10, 1 := 20, 2 := 30)),
      event_count = 3, event_index = 3\<rparr> =
   Inr ([],
        \<lparr>data_dir = True,
         data = Some \<lparr>header = Some \<lparr>magic = 0x00415041, version = 1, num_events = 3\<rparr>,
                      entries = [10, 0, 0]\<rparr>\<rparr>,
        \<lparr>event_buffer = Some ((\<lambda>_. 0)(0 := 10, 1 := 20, 2 := 30)),
         event_count = 3, event_index = 3\<rparr>)"
    by (simp add: save_data_def eval_nat_numeral save_index_def rem_MAX_EVENTS_def in_buffer_def
        MAX_EVENTS_def signed_modulo_int_def kept_in_file_def)
  have v1: "spec_chronological_view
     \<lparr>event_buffer = Some ((\<lambda>_. 0)(0 := 10, 1 := 20, 2 := 30)),
      event_count = 3, event_index = 3\<rparr> = [10, 20, 30]"
    by (simp add: spec_chronological_view_def MAX_EVENTS_def three)
  have v2: "spec_chronological_view
     \<lparr>event_buffer = Some ((\<lambda>_. 0)(0 := 10, 1 := 0, 2 := 0)),
      event_count = 3, event_index = 3\<rparr> = [10, 0, 0]"
    by (simp add: spec_chronological_view_def MAX_EVENTS_def three)
  from save v1 v2 show ?thesis
    by (simp only: load_three simp_thms)
qed

end
